theory Spec2Isabelle
  imports Main "HOL-Library.Multiset" "HOL-Library.Word"
begin

section \<open>Kubernetes peer pool (kubernetes.go)\<close>

subsection \<open>Data model\<close>

text \<open>
  \<^verbatim>\<open>K8sPoolConfig\<close> without its \<^verbatim>\<open>OnUpdate\<close> function field: every call of
  \<^verbatim>\<open>e.conf.OnUpdate(peers)\<close> is recorded as an effect \<open>OnUpdate peers\<close> instead.
\<close>

record K8sPoolConfig =
  Namespace :: string
  Selector :: string
  PodIP :: string
  PodPort :: string
  Enabled :: bool

text \<open>\<^verbatim>\<open>PeerInfo{Address, IsOwner}\<close>, as \<^verbatim>\<open>updatePeers\<close> fills it.\<close>

record PeerInfo =
  Address :: string
  IsOwner :: bool

text \<open>
  The parts of the Kubernetes API types that \<^verbatim>\<open>updatePeers\<close> can see:
  \<^verbatim>\<open>EndpointAddress.IP\<close>, \<^verbatim>\<open>EndpointPort.Port\<close> (an int32) and
  \<^verbatim>\<open>EndpointSubset{Addresses, NotReadyAddresses, Ports}\<close>.
\<close>

record EndpointAddress =
  IP :: string
  Hostname :: string

record EndpointPort =
  PortName :: string
  Port :: "32 word"

record EndpointSubset =
  Addresses :: "EndpointAddress list"
  NotReadyAddresses :: "EndpointAddress list"
  Ports :: "EndpointPort list"

text \<open>
  An element of \<^verbatim>\<open>GetStore().List()\<close> is an \<^verbatim>\<open>interface{}\<close>: either a
  \<^verbatim>\<open>*v1.Endpoints\<close> with its \<^verbatim>\<open>Subsets\<close>, or a value of another dynamic type, of which
  only the type's name (\<^verbatim>\<open>reflect.TypeOf(obj).String()\<close>) is observed.
\<close>

datatype obj =
  Endpoints "EndpointSubset list"
| Other string

text \<open>What a run leaves behind: error-level log lines and calls of the consumer callback.\<close>

datatype effect =
  LogError string
| OnUpdate "PeerInfo list"

text \<open>Go run-time panics that the modelled code can raise.\<close>

datatype panic =
  NilPointerDereference
| CloseOfClosedChannel

subsection \<open>updatePeers\<close>

text \<open>
  Lines 146-151: \<^verbatim>\<open>peer := PeerInfo{Address: fmt.Sprintf("%s:%s", addr.IP, e.conf.PodPort)}\<close>,
  then \<^verbatim>\<open>IsOwner\<close> is set when \<^verbatim>\<open>addr.IP == e.conf.PodIP\<close>.
\<close>

definition mk_peer :: "K8sPoolConfig \<Rightarrow> EndpointAddress \<Rightarrow> PeerInfo" where
  "mk_peer c addr =
     (let peer = \<lparr>Address = IP addr @ '':'' @ PodPort c, IsOwner = False\<rparr>
      in if IP addr = PodIP c then peer\<lparr>IsOwner := True\<rparr> else peer)"

text \<open>The loop over \<^verbatim>\<open>s.Addresses\<close>, appending to \<^verbatim>\<open>peers\<close>.\<close>

fun addresses_loop :: "K8sPoolConfig \<Rightarrow> PeerInfo list \<Rightarrow> EndpointAddress list \<Rightarrow> PeerInfo list" where
  "addresses_loop c peers [] = peers"
| "addresses_loop c peers (addr # addrs) = addresses_loop c (peers @ [mk_peer c addr]) addrs"

text \<open>The loop over \<^verbatim>\<open>endpoint.Subsets\<close>.\<close>

fun subsets_loop :: "K8sPoolConfig \<Rightarrow> PeerInfo list \<Rightarrow> EndpointSubset list \<Rightarrow> PeerInfo list" where
  "subsets_loop c peers [] = peers"
| "subsets_loop c peers (s # ss) = subsets_loop c (addresses_loop c peers (Addresses s)) ss"

text \<open>The text of \<^verbatim>\<open>logrus.Errorf("expected type v1.Endpoints got '%s' instead", ...)\<close>.\<close>

definition unexpected_type_msg :: "string \<Rightarrow> string" where
  "unexpected_type_msg ty =
     ''expected type v1.Endpoints got '' @ [CHR 0x27] @ ty @ [CHR 0x27] @ '' instead''"

text \<open>
  The loop over the store's objects. When the type assertion
  \<^verbatim>\<open>endpoint, ok := obj.(*api_v1.Endpoints)\<close> fails, the error is logged and the body goes on
  with \<^verbatim>\<open>endpoint == nil\<close>: evaluating \<^verbatim>\<open>endpoint.Subsets\<close> then dereferences a nil
  pointer, and the panic leaves the loop and the function.
\<close>

fun store_loop ::
  "K8sPoolConfig \<Rightarrow> effect list \<Rightarrow> PeerInfo list \<Rightarrow> obj list \<Rightarrow> effect list \<times> (panic + PeerInfo list)" where
  "store_loop c log peers [] = (log, Inr peers)"
| "store_loop c log peers (Endpoints subsets # objs) =
     store_loop c log (subsets_loop c peers subsets) objs"
| "store_loop c log peers (Other ty # objs) =
     (log @ [LogError (unexpected_type_msg ty)], Inl NilPointerDereference)"

text \<open>
  \<^verbatim>\<open>updatePeers\<close>, given what \<^verbatim>\<open>e.informer.GetStore().List()\<close> returns at that moment.
  \<^verbatim>\<open>var peers []PeerInfo\<close> starts as the nil slice, which is the empty list here. The result
  is the effects in order and either the panic or a normal return.
\<close>

definition updatePeers :: "K8sPoolConfig \<Rightarrow> obj list \<Rightarrow> effect list \<times> (panic + unit)" where
  "updatePeers c store =
     (case store_loop c [] [] store of
        (log, Inl p) \<Rightarrow> (log, Inl p)
      | (log, Inr peers) \<Rightarrow> (log @ [OnUpdate peers], Inr ()))"

subsection \<open>Event handlers registered by start\<close>

text \<open>
  The informer's notifications. \<^verbatim>\<open>AddFunc\<close> is commented out in the source, so
  \<^verbatim>\<open>ResourceEventHandlerFuncs\<close> has no handler for an add.
\<close>

datatype event =
  Add obj
| Update obj obj
| Delete obj

text \<open>The text of \<^verbatim>\<open>logrus.Errorf("while calling MetaNamespaceKeyFunc(): %s", err)\<close>.\<close>

definition key_error_msg :: "string \<Rightarrow> string" where
  "key_error_msg err = ''while calling MetaNamespaceKeyFunc(): '' @ err"

text \<open>
  \<^verbatim>\<open>UpdateFunc\<close> and \<^verbatim>\<open>DeleteFunc\<close> have the same body: the key of the event's (old) object is
  computed, and on an error the handler logs and returns without \<^verbatim>\<open>updatePeers\<close>.
  \<^verbatim>\<open>cache.MetaNamespaceKeyFunc\<close> belongs to the client library and is the parameter
  \<open>keyFunc\<close> (\<open>Inl\<close> its error text, \<open>Inr\<close> the key).
\<close>

definition handler_body ::
  "(obj \<Rightarrow> string + string) \<Rightarrow> K8sPoolConfig \<Rightarrow> obj list \<Rightarrow> obj \<Rightarrow> effect list \<times> (panic + unit)" where
  "handler_body keyFunc c store ob =
     (case keyFunc ob of
        Inl err \<Rightarrow> ([LogError (key_error_msg err)], Inr ())
      | Inr key \<Rightarrow> updatePeers c store)"

fun handle_event ::
  "(obj \<Rightarrow> string + string) \<Rightarrow> K8sPoolConfig \<Rightarrow> obj list \<Rightarrow> event \<Rightarrow> effect list \<times> (panic + unit)" where
  "handle_event keyFunc c store (Add ob) = ([], Inr ())"
| "handle_event keyFunc c store (Update ob new) = handler_body keyFunc c store ob"
| "handle_event keyFunc c store (Delete ob) = handler_body keyFunc c store ob"

text \<open>The calls of the consumer callback among the effects of a run.\<close>

fun callbacks :: "effect list \<Rightarrow> PeerInfo list list" where
  "callbacks [] = []"
| "callbacks (OnUpdate ps # es) = ps # callbacks es"
| "callbacks (LogError m # es) = callbacks es"

text \<open>An event that reaches \<^verbatim>\<open>updatePeers\<close>: an update or a delete whose key is computed.\<close>

fun qualifying :: "(obj \<Rightarrow> string + string) \<Rightarrow> event \<Rightarrow> bool" where
  "qualifying keyFunc (Add ob) = False"
| "qualifying keyFunc (Update ob new) = (case keyFunc ob of Inl err \<Rightarrow> False | Inr key \<Rightarrow> True)"
| "qualifying keyFunc (Delete ob) = (case keyFunc ob of Inl err \<Rightarrow> False | Inr key \<Rightarrow> True)"

text \<open>A well-formed record is an \<^verbatim>\<open>*v1.Endpoints\<close>.\<close>

fun well_formed :: "obj \<Rightarrow> bool" where
  "well_formed (Endpoints subsets) = True"
| "well_formed (Other ty) = False"

text \<open>All addresses of a record, subset by subset; a malformed record has none.\<close>

fun record_addresses :: "obj \<Rightarrow> EndpointAddress list" where
  "record_addresses (Endpoints subsets) = concat (map Addresses subsets)"
| "record_addresses (Other ty) = []"

subsection \<open>The store behind the informer\<close>

text \<open>
  The informer's store keeps its objects in a Go map from key to object, and
  \<^verbatim>\<open>List()\<close> ranges over that map: the objects come in an order that Go leaves open and that
  may change from one call to the next. \<open>ks\<close> is the order in which the keys are visited.
\<close>

definition iteration_order :: "(string \<rightharpoonup> obj) \<Rightarrow> string list \<Rightarrow> bool" where
  "iteration_order snap ks \<longleftrightarrow> distinct ks \<and> set ks = dom snap"

definition List_store :: "(string \<rightharpoonup> obj) \<Rightarrow> string list \<Rightarrow> obj list" where
  "List_store snap ks = List.map_filter snap ks"

text \<open>The records of the example: key A with address 10.0.0.1, key B with address 10.0.0.2.\<close>

definition endpoints_of_ip :: "string \<Rightarrow> obj" where
  "endpoints_of_ip ip =
     Endpoints [\<lparr>Addresses = [\<lparr>IP = ip, Hostname = []\<rparr>], NotReadyAddresses = [], Ports = []\<rparr>]"

definition example_snapshot :: "string \<rightharpoonup> obj" where
  "example_snapshot =
     [''A'' \<mapsto> endpoints_of_ip ''10.0.0.1'', ''B'' \<mapsto> endpoints_of_ip ''10.0.0.2'']"

definition example_conf :: K8sPoolConfig where
  "example_conf =
     \<lparr>Namespace = ''default'', Selector = ''app=gubernator'', PodIP = ''10.0.0.2'',
      PodPort = ''8080'', Enabled = True\<rparr>"

text \<open>
  A key function for the examples, with the two outcomes of the library's function: a key
  for an object that carries metadata, an error for one that does not (such as the
  \<^verbatim>\<open>cache.DeletedFinalStateUnknown\<close> tombstone that a delete handler can be given).
\<close>

definition example_keyFunc :: "obj \<Rightarrow> string + string" where
  "example_keyFunc ob =
     (case ob of Endpoints subsets \<Rightarrow> Inr ''default/gubernator'' | Other ty \<Rightarrow> Inl ''object has no meta'')"

subsection \<open>Construction, start and Close\<close>

text \<open>
  The fields of \<^verbatim>\<open>K8sPool\<close> that the code changes: whether the channel \<^verbatim>\<open>e.done\<close> has been
  closed, and whether \<^verbatim>\<open>go e.informer.Run(e.done)\<close> has been launched (the goroutine that
  lists and watches the Endpoints API and calls the handlers).
\<close>

record K8sPool =
  conf :: K8sPoolConfig
  done_closed :: bool
  informer_started :: bool

text \<open>
  \<^verbatim>\<open>close(e.done)\<close>: closing a channel that is already closed is a run-time panic in Go.
\<close>

definition close_done :: "K8sPool \<Rightarrow> panic + K8sPool" where
  "close_done e = (if done_closed e then Inl CloseOfClosedChannel else Inr (e\<lparr>done_closed := True\<rparr>))"

text \<open>\<^verbatim>\<open>Close\<close> is \<^verbatim>\<open>close(e.done)\<close> and nothing else.\<close>

definition Close :: "K8sPool \<Rightarrow> panic + K8sPool" where
  "Close e = close_done e"

text \<open>
  \<^verbatim>\<open>cache.WaitForCacheSync(e.done, e.informer.HasSynced)\<close> of the client library: it polls
  \<^verbatim>\<open>HasSynced\<close> at a fixed period, returns true at the first poll that finds it true, and
  returns false once the stop channel is closed. It has no other exit. \<open>hasSynced n\<close> is the
  answer of the informer at the \<open>n\<close>-th poll; a wait that never ends is \<open>None\<close>.
\<close>

partial_function (option) WaitForCacheSync :: "bool \<Rightarrow> (nat \<Rightarrow> bool) \<Rightarrow> nat \<Rightarrow> bool option" where
  "WaitForCacheSync stopClosed hasSynced n =
     (if stopClosed then Some False
      else if hasSynced n then Some True
      else WaitForCacheSync stopClosed hasSynced (Suc n))"

definition sync_error :: string where
  "sync_error = ''timed out waiting for caches to sync''"

text \<open>
  \<^verbatim>\<open>start\<close>: the informer is built, the handlers are registered, \<^verbatim>\<open>informer.Run\<close> is launched,
  and the caller waits for the cache to sync. The result is \<open>None\<close> when the call never
  returns, the panic, or the pool with the returned error (\<open>None\<close> for \<^verbatim>\<open>nil\<close>).
\<close>

definition start :: "K8sPool \<Rightarrow> (nat \<Rightarrow> bool) \<Rightarrow> (panic + K8sPool \<times> string option) option" where
  "start e hasSynced =
     (let e1 = e\<lparr>informer_started := True\<rparr> in
      case WaitForCacheSync (done_closed e1) hasSynced 0 of
        None \<Rightarrow> None
      | Some synced \<Rightarrow>
          if \<not> synced then
            (case close_done e1 of
               Inl p \<Rightarrow> Some (Inl p)
             | Inr e2 \<Rightarrow> Some (Inr (e2, Some sync_error)))
          else Some (Inr (e1, None)))"

text \<open>
  What \<^verbatim>\<open>NewK8sPool\<close> meets outside the program: the error of \<^verbatim>\<open>rest.InClusterConfig()\<close>
  and of \<^verbatim>\<open>kubernetes.NewForConfig(config)\<close> (\<open>None\<close> when the call succeeds), and the
  informer's answers to \<^verbatim>\<open>HasSynced\<close>.
\<close>

record environment =
  InClusterConfig :: "string option"
  NewForConfig :: "string option"
  HasSynced :: "nat \<Rightarrow> bool"

text \<open>\<^verbatim>\<open>errors.Wrap(err, msg)\<close> has the text \<^verbatim>\<open>msg: err\<close>.\<close>

definition Wrap :: "string \<Rightarrow> string \<Rightarrow> string" where
  "Wrap err msg = msg @ '': '' @ err"

text \<open>
  \<^verbatim>\<open>NewK8sPool\<close> returns the pair \<^verbatim>\<open>(pool, err)\<close>; the pool is \<^verbatim>\<open>nil\<close> (\<open>None\<close>) when the
  configuration or the client cannot be made. \<^verbatim>\<open>done: make(chan struct{})\<close> is an open
  channel.
\<close>

definition NewK8sPool ::
  "K8sPoolConfig \<Rightarrow> environment \<Rightarrow> (panic + K8sPool option \<times> string option) option" where
  "NewK8sPool c env =
     (case InClusterConfig env of
        Some err \<Rightarrow> Some (Inr (None, Some (Wrap err ''during InClusterConfig()'')))
      | None \<Rightarrow>
          (case NewForConfig env of
             Some err \<Rightarrow> Some (Inr (None, Some (Wrap err ''during NewForConfig()'')))
           | None \<Rightarrow>
               (let pool = \<lparr>conf = c, done_closed = False, informer_started = False\<rparr> in
                case start pool (HasSynced env) of
                  None \<Rightarrow> None
                | Some (Inl p) \<Rightarrow> Some (Inl p)
                | Some (Inr (pool1, err)) \<Rightarrow> Some (Inr (Some pool1, err)))))"

text \<open>\<open>n\<close> calls of \<^verbatim>\<open>Close\<close> one after the other; a panic ends the sequence.\<close>

fun Close_times :: "nat \<Rightarrow> K8sPool \<Rightarrow> panic + K8sPool" where
  "Close_times 0 e = Inr e"
| "Close_times (Suc n) e = (case Close e of Inl p \<Rightarrow> Inl p | Inr e1 \<Rightarrow> Close_times n e1)"

text \<open>
  An environment for the examples: both library calls succeed and the informer reports
  that it has synced from the third poll on.
\<close>

definition example_env :: environment where
  "example_env = \<lparr>InClusterConfig = None, NewForConfig = None, HasSynced = (\<lambda>n. 2 \<le> n)\<rparr>"

definition disabled_conf :: K8sPoolConfig where
  "disabled_conf = example_conf\<lparr>Enabled := False\<rparr>"

section \<open>Statsd metrics (the aggregation loop of StatsdMetrics.Start)\<close>

text \<open>
  \<^verbatim>\<open>RequestStats\<close> as the loop uses it: the method name, the duration (a
  \<^verbatim>\<open>time.Duration\<close>, an int64) and the two int64 counters.
\<close>

record RequestStats =
  Method :: string
  Duration :: "64 word"
  Called :: "64 word"
  Failed :: "64 word"

text \<open>
  The case \<^verbatim>\<open>stat := <-sd.reqChan\<close>. \<^verbatim>\<open>item, ok := methods[stat.Method]\<close> copies the map's
  value into \<^verbatim>\<open>item\<close>; when the key is present the three updates change that copy and the
  function returns, with no assignment back into \<^verbatim>\<open>methods\<close>.
\<close>

definition recv_stat :: "(string \<rightharpoonup> RequestStats) \<Rightarrow> RequestStats \<Rightarrow> (string \<rightharpoonup> RequestStats)" where
  "recv_stat methods stat =
     (case methods (Method stat) of
        Some item \<Rightarrow>
          (let item1 = item\<lparr>Failed := Failed item + Failed stat\<rparr>;
               item2 = item1\<lparr>Called := Called item1 + 1\<rparr>;
               item3 = (if sint (Duration stat) < sint (Duration item2)
                        then item2\<lparr>Duration := Duration stat\<rparr> else item2)
           in methods)
      | None \<Rightarrow> methods(Method stat \<mapsto> stat\<lparr>Called := 1\<rparr>))"

text \<open>The calls made on the statsd client.\<close>

datatype statsd_call =
  Gauge string "64 word"
| Inc string "64 word"

text \<open>\<^verbatim>\<open>strings.LastIndex(k, "/")\<close>: the index of the last slash, or -1.\<close>

fun last_index_from :: "char \<Rightarrow> string \<Rightarrow> int \<Rightarrow> int \<Rightarrow> int" where
  "last_index_from ch [] i found = found"
| "last_index_from ch (x # xs) i found = last_index_from ch xs (i + 1) (if x = ch then i else found)"

definition LastIndex :: "string \<Rightarrow> char \<Rightarrow> int" where
  "LastIndex k ch = last_index_from ch k 0 (- 1)"

text \<open>\<^verbatim>\<open>method := k[strings.LastIndex(k, "/")+1:]\<close>.\<close>

definition method_name :: "string \<Rightarrow> string" where
  "method_name k = drop (nat (LastIndex k (CHR ''/'') + 1)) k"

text \<open>The three calls of the tick for one entry \<^verbatim>\<open>k, v\<close> of the map.\<close>

definition emit_method :: "string \<Rightarrow> RequestStats \<Rightarrow> statsd_call list" where
  "emit_method k v =
     [Gauge (''api.'' @ method_name k @ ''.duration'') (Duration v),
      Inc (''api.'' @ method_name k @ ''.total'') (Called v),
      Inc (''api.'' @ method_name k @ ''.failed'') (Failed v)]"

text \<open>
  The case \<^verbatim>\<open><-tick.C\<close>, for a map visited in the key order \<open>ks\<close>: the calls for every
  entry, then the cache counters when a cache-statistics source is registered (\<open>cache\<close> is
  what \<^verbatim>\<open>Stats(true)\<close> returns: size, hit, miss). The map is replaced by an empty one.
\<close>

definition tick ::
  "(string \<rightharpoonup> RequestStats) \<Rightarrow> string list \<Rightarrow> (64 word \<times> 64 word \<times> 64 word) option \<Rightarrow>
   statsd_call list \<times> (string \<rightharpoonup> RequestStats)" where
  "tick methods ks cache =
     (concat (map (\<lambda>k. case methods k of None \<Rightarrow> [] | Some v \<Rightarrow> emit_method k v) ks) @
      (case cache of
         None \<Rightarrow> []
       | Some (sz, hit, miss) \<Rightarrow> [Inc ''cache.size'' sz, Inc ''cache.hit'' hit, Inc ''cache.miss'' miss]),
      Map.empty)"

text \<open>The stats of one interval, received one after the other from an empty map.\<close>

definition aggregate :: "RequestStats list \<Rightarrow> (string \<rightharpoonup> RequestStats)" where
  "aggregate stats = foldl recv_stat Map.empty stats"

text \<open>Two stats of the same method, for the examples.\<close>

definition first_stat :: RequestStats where
  "first_stat = \<lparr>Method = ''/pb.gubernator.V1/GetRateLimits'', Duration = 500, Called = 0, Failed = 0\<rparr>"

definition second_stat :: RequestStats where
  "second_stat = \<lparr>Method = ''/pb.gubernator.V1/GetRateLimits'', Duration = 100, Called = 0, Failed = 1\<rparr>"

section \<open>Properties of the peer-list rebuild\<close>

lemma addresses_loop_eq: "addresses_loop c peers addrs = peers @ map (mk_peer c) addrs"
  by (induction addrs arbitrary: peers) simp_all

lemma subsets_loop_eq:
  "subsets_loop c peers ss = peers @ map (mk_peer c) (concat (map Addresses ss))"
  by (induction ss arbitrary: peers) (simp_all add: addresses_loop_eq)

lemma store_loop_well_formed:
  "list_all well_formed store \<Longrightarrow>
   store_loop c log peers store =
     (log, Inr (peers @ map (mk_peer c) (concat (map record_addresses store))))"
proof (induction store arbitrary: peers)
  case Nil
  then show ?case by simp
next
  case (Cons ob store)
  then show ?case by (cases ob) (simp_all add: subsets_loop_eq)
qed

lemma updatePeers_well_formed:
  "list_all well_formed store \<Longrightarrow>
   updatePeers c store =
     ([OnUpdate (map (mk_peer c) (concat (map record_addresses store)))], Inr ())"
  by (simp add: updatePeers_def store_loop_well_formed)

lemma mk_peer_eq: "mk_peer c addr = \<lparr>Address = IP addr @ '':'' @ PodPort c, IsOwner = (IP addr = PodIP c)\<rparr>"
  by (simp add: mk_peer_def Let_def)

lemma handle_event_qualifying:
  "qualifying keyFunc ev \<Longrightarrow> handle_event keyFunc c store ev = updatePeers c store"
  by (cases ev) (simp_all add: handler_body_def split: sum.splits)


lemma callbacks_append: "callbacks (xs @ ys) = callbacks xs @ callbacks ys"
  by (induction xs rule: callbacks.induct) simp_all

lemma store_loop_malformed:
  "\<not> list_all well_formed store \<Longrightarrow>
   \<exists>ty. store_loop c log peers store = (log @ [LogError (unexpected_type_msg ty)], Inl NilPointerDereference)"
proof (induction store arbitrary: peers)
  case Nil
  then show ?case by simp
next
  case (Cons ob store)
  then show ?case by (cases ob) auto
qed

lemma callbacks_updatePeers_malformed:
  assumes "\<not> list_all well_formed store"
  shows "callbacks (fst (updatePeers c store)) = []"
proof -
  from store_loop_malformed [OF assms, of c "[]" "[]"] obtain ty where
    "store_loop c [] [] store = ([LogError (unexpected_type_msg ty)], Inl NilPointerDereference)"
    by auto
  then show ?thesis by (simp add: updatePeers_def)
qed

lemma callbacks_updatePeers:
  "callbacks (fst (updatePeers c store)) =
     (if list_all well_formed store then [map (mk_peer c) (concat (map record_addresses store))] else [])"
  by (simp add: updatePeers_well_formed callbacks_updatePeers_malformed)

subsection \<open>Claim C1\<close>

text \<open>
  C1. A qualifying event (an update or a delete whose key is computed) runs
  \<^verbatim>\<open>updatePeers\<close> on the store's full listing, whatever objects the event carries. When every
  listed record is well-formed the callback is called once, with one \<^verbatim>\<open>PeerInfo\<close> per
  address of every record, in listing order: the address is the record address's IP joined
  by a colon with the configured \<^verbatim>\<open>PodPort\<close> (the subsets' own ports are not read), and
  \<^verbatim>\<open>IsOwner\<close> holds exactly when the IP equals the configured \<^verbatim>\<open>PodIP\<close>. Any list the
  callback receives contains that entry for every address of every record.
\<close>

theorem C1_rebuild_complete_peer_list:
  assumes "qualifying keyFunc ev"
  shows "handle_event keyFunc c store ev = updatePeers c store \<and>
     (list_all well_formed store \<longrightarrow>
        callbacks (fst (handle_event keyFunc c store ev)) =
          [map (\<lambda>addr. \<lparr>Address = IP addr @ '':'' @ PodPort c, IsOwner = (IP addr = PodIP c)\<rparr>)
               (concat (map record_addresses store))]) \<and>
     (\<forall>ps \<in> set (callbacks (fst (handle_event keyFunc c store ev))).
        \<forall>ob \<in> set store. \<forall>addr \<in> set (record_addresses ob).
          \<lparr>Address = IP addr @ '':'' @ PodPort c, IsOwner = (IP addr = PodIP c)\<rparr> \<in> set ps)"
proof -
  let ?mk = "\<lambda>addr. \<lparr>Address = IP addr @ '':'' @ PodPort c, IsOwner = (IP addr = PodIP c)\<rparr>"
  have mk: "mk_peer c = ?mk" by (rule ext) (rule mk_peer_eq)
  have eq: "handle_event keyFunc c store ev = updatePeers c store"
    using assms by (rule handle_event_qualifying)
  have cb: "callbacks (fst (updatePeers c store)) =
     (if list_all well_formed store then [map ?mk (concat (map record_addresses store))] else [])"
    unfolding callbacks_updatePeers mk ..
  have mem: "?mk addr \<in> set ps"
    if "ps \<in> set (callbacks (fst (updatePeers c store)))" "ob \<in> set store" "addr \<in> set (record_addresses ob)"
    for ps ob addr
  proof -
    from that(1) have "ps = map ?mk (concat (map record_addresses store))"
      unfolding cb by (simp split: if_splits)
    moreover from that(2,3) have "addr \<in> set (concat (map record_addresses store))" by auto
    ultimately show ?thesis by (simp only: set_map) (rule imageI)
  qed
  show ?thesis unfolding eq using cb mem by simp
qed

theorem C1_rebuild_complete_peer_list_witness:
  "handle_event example_keyFunc example_conf
      [endpoints_of_ip ''10.0.0.1'', endpoints_of_ip ''10.0.0.2'']
      (Update (endpoints_of_ip ''10.0.0.1'') (endpoints_of_ip ''10.0.0.9'')) =
    ([OnUpdate [\<lparr>Address = ''10.0.0.1:8080'', IsOwner = False\<rparr>,
                \<lparr>Address = ''10.0.0.2:8080'', IsOwner = True\<rparr>]], Inr ())"
proof -
  have q: "qualifying example_keyFunc (Update (endpoints_of_ip ''10.0.0.1'') (endpoints_of_ip ''10.0.0.9''))"
    by (simp add: example_keyFunc_def endpoints_of_ip_def)
  have "updatePeers example_conf [endpoints_of_ip ''10.0.0.1'', endpoints_of_ip ''10.0.0.2''] =
    ([OnUpdate [\<lparr>Address = ''10.0.0.1:8080'', IsOwner = False\<rparr>,
                \<lparr>Address = ''10.0.0.2:8080'', IsOwner = True\<rparr>]], Inr ())"
    by (simp add: updatePeers_def endpoints_of_ip_def example_conf_def mk_peer_def Let_def)
  with C1_rebuild_complete_peer_list [OF q, of example_conf "[endpoints_of_ip ''10.0.0.1'', endpoints_of_ip ''10.0.0.2'']"]
  show ?thesis by simp
qed


subsection \<open>Claim C2\<close>




subsection \<open>Claim C3\<close>

text \<open>
  C3. A malformed record in the listing is logged but not skipped: the loop body goes on
  to \<^verbatim>\<open>endpoint.Subsets\<close> with a nil \<^verbatim>\<open>endpoint\<close> and panics, so the rebuild does not
  complete and the callback is not called, although the other two records are well-formed.
\<close>

theorem C3_malformed_record_panics:
  "updatePeers example_conf [endpoints_of_ip ''10.0.0.1'', Other ''*v1.Pod'', endpoints_of_ip ''10.0.0.2''] =
     ([LogError (''expected type v1.Endpoints got '' @ [CHR 0x27] @ ''*v1.Pod'' @ [CHR 0x27] @ '' instead'')],
      Inl NilPointerDereference)"
  by (simp add: updatePeers_def endpoints_of_ip_def unexpected_type_msg_def)

subsection \<open>Claim C10\<close>



subsection \<open>Claim C6\<close>

lemma mset_concat_map_cong:
  assumes "mset xs = mset ys"
  shows "mset (concat (map f xs)) = mset (concat (map f ys))"
proof -
  have "mset (concat (map f zs)) = sum_mset (image_mset (\<lambda>z. mset (f z)) (mset zs))" for zs
    by (induction zs) simp_all
  with assms show ?thesis by simp
qed

lemma mset_List_store:
  assumes "iteration_order snap ks1" "iteration_order snap ks2"
  shows "mset (List_store snap ks1) = mset (List_store snap ks2)"
proof -
  from assms have "distinct ks1" "distinct ks2" "set ks1 = set ks2"
    by (simp_all add: iteration_order_def)
  then have "mset ks1 = mset ks2"
    by (simp add: set_eq_iff_mset_eq_distinct)
  then show ?thesis by (simp add: List_store_def map_filter_def)
qed

lemma set_List_store: "set (List_store snap ks) \<subseteq> ran snap"
  by (auto simp: List_store_def map_filter_def ran_def)

lemma well_formed_List_store:
  assumes "\<forall>ob \<in> ran snap. well_formed ob"
  shows "list_all well_formed (List_store snap ks)"
  using assms set_List_store [of snap ks] by (auto simp: list_all_iff)

lemma example_snapshot_AB:
  "List_store example_snapshot [''A'', ''B''] = [endpoints_of_ip ''10.0.0.1'', endpoints_of_ip ''10.0.0.2'']"
  by (simp add: List_store_def example_snapshot_def)

lemma example_snapshot_BA:
  "List_store example_snapshot [''B'', ''A''] = [endpoints_of_ip ''10.0.0.2'', endpoints_of_ip ''10.0.0.1'']"
  by (simp add: List_store_def example_snapshot_def)

lemma example_order_AB: "iteration_order example_snapshot [''A'', ''B'']"
  by (auto simp: iteration_order_def example_snapshot_def)

lemma example_order_BA: "iteration_order example_snapshot [''B'', ''A'']"
  by (auto simp: iteration_order_def example_snapshot_def)

lemma example_updatePeers:
  "updatePeers example_conf [endpoints_of_ip ''10.0.0.1'', endpoints_of_ip ''10.0.0.2''] =
    ([OnUpdate [\<lparr>Address = ''10.0.0.1:8080'', IsOwner = False\<rparr>,
                \<lparr>Address = ''10.0.0.2:8080'', IsOwner = True\<rparr>]], Inr ())"
  by (simp add: updatePeers_def endpoints_of_ip_def example_conf_def mk_peer_def Let_def)

text \<open>
  C6, as stated, fails: the code does not sort, so the peer list follows the order in
  which the store lists its records. When the snapshot of the example is listed as B, A
  the result is the reverse of the list the claim gives, and differs from the result for
  the listing A, B of the same snapshot.
\<close>

theorem C6_listing_order_counterexample:
  "iteration_order example_snapshot [''B'', ''A''] \<and>
   updatePeers example_conf (List_store example_snapshot [''B'', ''A'']) =
     ([OnUpdate [\<lparr>Address = ''10.0.0.2:8080'', IsOwner = True\<rparr>,
                 \<lparr>Address = ''10.0.0.1:8080'', IsOwner = False\<rparr>]], Inr ()) \<and>
   updatePeers example_conf (List_store example_snapshot [''B'', ''A'']) \<noteq>
     updatePeers example_conf (List_store example_snapshot [''A'', ''B''])"
  by (simp add: example_order_BA example_snapshot_BA example_snapshot_AB
      updatePeers_def endpoints_of_ip_def example_conf_def mk_peer_def Let_def)

text \<open>
  C6, amended. The peer list is a function of the configuration and of the sequence the
  store lists: it has one entry per address, in listing order. Two listings of the same
  snapshot of well-formed records give peer lists with the same entries, each as often in
  one as in the other, in an order that follows the listing; equal listings give equal
  lists. For the example snapshot listed as A, B the list is the one the claim gives.
\<close>

theorem C6_peer_list_up_to_listing_order:
  assumes "iteration_order snap ks1" and "iteration_order snap ks2"
    and "\<forall>ob \<in> ran snap. well_formed ob"
  shows "\<exists>ps1 ps2.
      updatePeers c (List_store snap ks1) = ([OnUpdate ps1], Inr ()) \<and>
      updatePeers c (List_store snap ks2) = ([OnUpdate ps2], Inr ()) \<and>
      mset ps1 = mset ps2 \<and>
      (List_store snap ks1 = List_store snap ks2 \<longrightarrow> ps1 = ps2) \<and>
      ps1 = map (\<lambda>addr. \<lparr>Address = IP addr @ '':'' @ PodPort c, IsOwner = (IP addr = PodIP c)\<rparr>)
               (concat (map record_addresses (List_store snap ks1)))"
proof -
  let ?ps = "\<lambda>ks. map (mk_peer c) (concat (map record_addresses (List_store snap ks)))"
  have 1: "updatePeers c (List_store snap ks) = ([OnUpdate (?ps ks)], Inr ())" for ks
    using assms(3) by (intro updatePeers_well_formed well_formed_List_store)
  have "mset (concat (map record_addresses (List_store snap ks1))) =
        mset (concat (map record_addresses (List_store snap ks2)))"
    using assms(1,2) by (intro mset_concat_map_cong mset_List_store)
  then have 2: "mset (?ps ks1) = mset (?ps ks2)" by simp
  have 3: "mk_peer c = (\<lambda>addr. \<lparr>Address = IP addr @ '':'' @ PodPort c, IsOwner = (IP addr = PodIP c)\<rparr>)"
    by (rule ext) (rule mk_peer_eq)
  have 4: "List_store snap ks1 = List_store snap ks2 \<longrightarrow> ?ps ks1 = ?ps ks2" by simp
  from 1 [of ks1] 1 [of ks2] 2 3 4 show ?thesis by metis
qed

theorem C6_peer_list_up_to_listing_order_witness:
  "\<exists>ps1 ps2.
      updatePeers example_conf (List_store example_snapshot [''A'', ''B'']) = ([OnUpdate ps1], Inr ()) \<and>
      updatePeers example_conf (List_store example_snapshot [''B'', ''A'']) = ([OnUpdate ps2], Inr ()) \<and>
      mset ps1 = mset ps2 \<and>
      ps1 = [\<lparr>Address = ''10.0.0.1:8080'', IsOwner = False\<rparr>, \<lparr>Address = ''10.0.0.2:8080'', IsOwner = True\<rparr>]"
proof -
  have wf: "\<forall>ob \<in> ran example_snapshot. well_formed ob"
    by (auto simp: example_snapshot_def endpoints_of_ip_def ran_def split: if_splits)
  from C6_peer_list_up_to_listing_order [OF example_order_AB example_order_BA wf, of example_conf]
  obtain ps1 ps2 where
    a: "updatePeers example_conf (List_store example_snapshot [''A'', ''B'']) = ([OnUpdate ps1], Inr ())" and
    b: "updatePeers example_conf (List_store example_snapshot [''B'', ''A'']) = ([OnUpdate ps2], Inr ())" and
    c: "mset ps1 = mset ps2"
    by blast
  from a have "ps1 = [\<lparr>Address = ''10.0.0.1:8080'', IsOwner = False\<rparr>, \<lparr>Address = ''10.0.0.2:8080'', IsOwner = True\<rparr>]"
    by (simp add: example_snapshot_AB example_updatePeers)
  with a b c show ?thesis by blast
qed

section \<open>Properties of construction, start and Close\<close>

lemma wait_synced:
  "hasSynced (n + k) \<Longrightarrow> WaitForCacheSync False hasSynced n = Some True"
proof (induction k arbitrary: n)
  case 0
  then show ?case by (subst WaitForCacheSync.simps) simp
next
  case (Suc k)
  from Suc.prems have "hasSynced (Suc n + k)" by simp
  then have "WaitForCacheSync False hasSynced (Suc n) = Some True" by (rule Suc.IH)
  then show ?case by (subst WaitForCacheSync.simps) simp
qed

lemma wait_returns_cause:
  assumes "WaitForCacheSync stopClosed hasSynced n = Some b"
  shows "(b \<longrightarrow> (\<exists>m. hasSynced m)) \<and> (\<not> b \<longrightarrow> stopClosed)"
proof (rule WaitForCacheSync.raw_induct
    [where P = "\<lambda>s h n b. (b \<longrightarrow> (\<exists>m. h m)) \<and> (\<not> b \<longrightarrow> s)", OF _ assms])
  fix W s h k r
  assume IH: "\<And>s h k r. W s h k = Some r \<Longrightarrow> (r \<longrightarrow> (\<exists>m. h m)) \<and> (\<not> r \<longrightarrow> s)"
    and step: "(if s then Some False else if h k then Some True else W s h (Suc k)) = Some r"
  show "(r \<longrightarrow> (\<exists>m. h m)) \<and> (\<not> r \<longrightarrow> s)"
  proof (cases s)
    case True
    with step show ?thesis by simp
  next
    case False
    show ?thesis
    proof (cases "h k")
      case True
      with False step show ?thesis by auto
    next
      case hk: False
      with False step have "W s h (Suc k) = Some r" by simp
      then show ?thesis by (rule IH)
    qed
  qed
qed

lemma wait_never:
  assumes "\<And>m. \<not> hasSynced m"
  shows "WaitForCacheSync False hasSynced n = None"
proof (cases "WaitForCacheSync False hasSynced n")
  case None
  then show ?thesis .
next
  case (Some b)
  from wait_returns_cause [OF Some] assms show ?thesis by (cases b) auto
qed


lemma start_open:
  assumes "\<not> done_closed e"
  shows "start e hasSynced =
     (if \<exists>n. hasSynced n then Some (Inr (e\<lparr>informer_started := True\<rparr>, None)) else None)"
proof (cases "\<exists>n. hasSynced n")
  case True
  then obtain n where "hasSynced (0 + n)" by auto
  then have "WaitForCacheSync False hasSynced 0 = Some True" by (rule wait_synced)
  with assms True show ?thesis by (simp add: start_def)
next
  case False
  then have "WaitForCacheSync False hasSynced 0 = None" by (intro wait_never) simp
  with assms False show ?thesis by (simp add: start_def)
qed

lemma NewK8sPool_ok:
  assumes "InClusterConfig env = None" "NewForConfig env = None"
  shows "NewK8sPool c env =
     (if \<exists>n. HasSynced env n
      then Some (Inr (Some \<lparr>conf = c, done_closed = False, informer_started = True\<rparr>, None))
      else None)"
  using assms by (simp add: NewK8sPool_def start_open)

lemma NewK8sPool_started:
  assumes "NewK8sPool c env = Some (Inr (Some e, err))"
  shows "e = \<lparr>conf = c, done_closed = False, informer_started = True\<rparr> \<and> err = None"
proof -
  from assms have 1: "InClusterConfig env = None" and 2: "NewForConfig env = None"
    by (auto simp: NewK8sPool_def split: option.splits)
  from assms show ?thesis
    unfolding NewK8sPool_ok [OF 1 2] by (simp split: if_splits)
qed

lemma example_env_synced: "\<exists>n. HasSynced example_env n"
  by (rule exI [of _ 2]) (simp add: example_env_def)

lemma NewK8sPool_example:
  "NewK8sPool c example_env = Some (Inr (Some \<lparr>conf = c, done_closed = False, informer_started = True\<rparr>, None))"
  using example_env_synced by (simp add: NewK8sPool_ok example_env_def)

lemma start_conf:
  "start (e\<lparr>conf := c'\<rparr>) hasSynced =
     map_option (map_sum id (map_prod (\<lambda>e. e\<lparr>conf := c'\<rparr>) id)) (start e hasSynced)"
  by (simp add: start_def close_done_def Let_def split: option.splits)

subsection \<open>Claim C4\<close>

text \<open>
  C4, as stated, fails: \<^verbatim>\<open>Close\<close> has no guard, and the second call on a started engine
  closes a closed channel, which panics.
\<close>

theorem C4_second_Close_panics_counterexample:
  "NewK8sPool example_conf example_env =
     Some (Inr (Some \<lparr>conf = example_conf, done_closed = False, informer_started = True\<rparr>, None)) \<and>
   Close_times 2 \<lparr>conf = example_conf, done_closed = False, informer_started = True\<rparr> =
     Inl CloseOfClosedChannel"
  by (simp add: NewK8sPool_example numeral_2_eq_2 Close_def close_done_def)

text \<open>
  C4, amended. On an engine that \<^verbatim>\<open>NewK8sPool\<close> returned, the first \<^verbatim>\<open>Close\<close> closes the
  done channel and returns; any sequence of two or more calls ends in the panic of closing
  a closed channel.
\<close>

theorem C4_first_Close_ok_later_Close_panics:
  assumes "NewK8sPool c env = Some (Inr (Some e, err))"
  shows "Close_times 1 e = Inr (e\<lparr>done_closed := True\<rparr>) \<and>
     Close_times (Suc (Suc n)) e = Inl CloseOfClosedChannel"
proof -
  from NewK8sPool_started [OF assms] have op: "\<not> done_closed e" by simp
  then show ?thesis by (simp add: Close_def close_done_def)
qed

theorem C4_first_Close_ok_later_Close_panics_witness:
  "Close_times 1 \<lparr>conf = example_conf, done_closed = False, informer_started = True\<rparr> =
     Inr \<lparr>conf = example_conf, done_closed = True, informer_started = True\<rparr> \<and>
   Close_times 3 \<lparr>conf = example_conf, done_closed = False, informer_started = True\<rparr> =
     Inl CloseOfClosedChannel"
  using C4_first_Close_ok_later_Close_panics [OF NewK8sPool_example [of example_conf], where n = 1] by (simp add: numeral_3_eq_3)

subsection \<open>Claim C5\<close>

text \<open>
  C5, as stated, fails: \<^verbatim>\<open>NewK8sPool\<close> does not read the \<^verbatim>\<open>Enabled\<close> field. With the flag
  false it still builds the client, launches the informer and waits for the sync.
\<close>

theorem C5_disabled_still_starts_counterexample:
  "NewK8sPool disabled_conf example_env =
     Some (Inr (Some \<lparr>conf = disabled_conf, done_closed = False, informer_started = True\<rparr>, None)) \<and>
   \<not> Enabled disabled_conf"
  by (simp add: NewK8sPool_example disabled_conf_def)

text \<open>
  C5, amended. The outcome of \<^verbatim>\<open>NewK8sPool\<close> does not depend on the \<^verbatim>\<open>Enabled\<close> flag,
  which is only stored in the pool: setting the flag changes nothing but the stored
  configuration. With the flag false, when both library calls succeed and the informer
  syncs, the informer has been launched and the pool is returned with no error.
\<close>

theorem C5_enabled_flag_not_read:
  "NewK8sPool (c\<lparr>Enabled := b\<rparr>) env =
     map_option (map_sum id (map_prod (map_option (\<lambda>e. e\<lparr>conf := c\<lparr>Enabled := b\<rparr>\<rparr>)) id)) (NewK8sPool c env) \<and>
   (InClusterConfig env = None \<and> NewForConfig env = None \<and> HasSynced env n \<longrightarrow>
      NewK8sPool (c\<lparr>Enabled := False\<rparr>) env =
        Some (Inr (Some \<lparr>conf = c\<lparr>Enabled := False\<rparr>, done_closed = False, informer_started = True\<rparr>, None)))"
proof -
  have "\<lparr>conf = c\<lparr>Enabled := b\<rparr>, done_closed = False, informer_started = False\<rparr> =
     \<lparr>conf = c, done_closed = False, informer_started = False\<rparr>\<lparr>conf := c\<lparr>Enabled := b\<rparr>\<rparr>" by simp
  then have 1: "NewK8sPool (c\<lparr>Enabled := b\<rparr>) env =
     map_option (map_sum id (map_prod (map_option (\<lambda>e. e\<lparr>conf := c\<lparr>Enabled := b\<rparr>\<rparr>)) id)) (NewK8sPool c env)"
    unfolding NewK8sPool_def Let_def
    by (simp only: start_conf) (simp split: option.splits sum.splits)
  have 2: "NewK8sPool (c\<lparr>Enabled := False\<rparr>) env =
        Some (Inr (Some \<lparr>conf = c\<lparr>Enabled := False\<rparr>, done_closed = False, informer_started = True\<rparr>, None))"
    if "InClusterConfig env = None" "NewForConfig env = None" "HasSynced env n"
    using that by (auto simp: NewK8sPool_ok)
  from 1 2 show ?thesis by blast
qed

theorem C5_enabled_flag_not_read_witness:
  "NewK8sPool (example_conf\<lparr>Enabled := False\<rparr>) example_env =
     Some (Inr (Some \<lparr>conf = example_conf\<lparr>Enabled := False\<rparr>, done_closed = False, informer_started = True\<rparr>, None))"
proof -
  have "InClusterConfig example_env = None \<and> NewForConfig example_env = None \<and> HasSynced example_env 2"
    by (simp add: example_env_def)
  with C5_enabled_flag_not_read [where c = example_conf and b = False and env = example_env and n = 2] show ?thesis by blast
qed

subsection \<open>Claim C7\<close>

text \<open>
  C7, as stated, fails: the wait has no time bound. When the informer never reports that
  it has synced, \<^verbatim>\<open>start\<close> never returns.
\<close>

theorem C7_never_synced_never_returns_counterexample:
  "start \<lparr>conf = example_conf, done_closed = False, informer_started = False\<rparr> (\<lambda>n. False) = None"
  by (simp add: start_open)

text \<open>
  C7, amended. On a pool whose done channel is open, \<^verbatim>\<open>start\<close> blocks until the informer
  reports that it has synced and then returns no error; it fails to return exactly when
  that report never comes, and it never returns the sync error.
\<close>

theorem C7_start_waits_for_sync_unbounded:
  assumes "\<not> done_closed e"
  shows "(start e hasSynced = None \<longleftrightarrow> (\<forall>n. \<not> hasSynced n)) \<and>
     (hasSynced n \<longrightarrow> start e hasSynced = Some (Inr (e\<lparr>informer_started := True\<rparr>, None))) \<and>
     start e hasSynced \<noteq> Some (Inr (e', Some sync_error))"
  using assms by (auto simp: start_open)

theorem C7_start_waits_for_sync_unbounded_witness:
  "start \<lparr>conf = example_conf, done_closed = False, informer_started = False\<rparr> (\<lambda>n. 2 \<le> n) =
     Some (Inr (\<lparr>conf = example_conf, done_closed = False, informer_started = True\<rparr>, None))"
  using C7_start_waits_for_sync_unbounded [where e = "\<lparr>conf = example_conf, done_closed = False, informer_started = False\<rparr>"
      and hasSynced = "\<lambda>n. 2 \<le> n" and n = 2]
  by simp

section \<open>Properties of the metrics aggregation\<close>

lemma recv_stat_present: "methods (Method stat) = Some item \<Longrightarrow> recv_stat methods stat = methods"
  by (simp add: recv_stat_def Let_def)

lemma recv_stat_absent:
  "methods (Method stat) = None \<Longrightarrow> recv_stat methods stat = methods(Method stat \<mapsto> stat\<lparr>Called := 1\<rparr>)"
  by (simp add: recv_stat_def)

lemma foldl_recv_stat:
  "foldl recv_stat methods stats m =
     (case methods m of
        Some v \<Rightarrow> Some v
      | None \<Rightarrow> map_option (\<lambda>s. s\<lparr>Called := 1\<rparr>) (find (\<lambda>s. Method s = m) stats))"
proof (induction stats arbitrary: methods)
  case Nil
  then show ?case by (simp split: option.splits)
next
  case (Cons stat stats)
  show ?case
  proof (cases "methods (Method stat)")
    case None
    then show ?thesis
      by (simp add: Cons.IH recv_stat_absent split: option.splits)
  next
    case (Some item)
    then show ?thesis
      by (auto simp add: Cons.IH recv_stat_present split: option.splits)
  qed
qed

lemma aggregate_eq:
  "aggregate stats m = map_option (\<lambda>s. s\<lparr>Called := 1\<rparr>) (find (\<lambda>s. Method s = m) stats)"
  by (simp add: aggregate_def foldl_recv_stat)

subsection \<open>Claim C9\<close>

text \<open>
  C9. A stat whose method already has an entry leaves the aggregation map unchanged. So
  the entry of a method after an interval is the first stat received for it, with
  \<^verbatim>\<open>Called\<close> set to 1, and the tick emits for each key the duration and the failed count
  of that first stat and a total of 1.
\<close>

theorem C9_repeated_stat_leaves_map_unchanged:
  "(methods (Method stat) = Some item \<longrightarrow> recv_stat methods stat = methods) \<and>
   aggregate stats m = map_option (\<lambda>s. s\<lparr>Called := 1\<rparr>) (find (\<lambda>s. Method s = m) stats) \<and>
   fst (tick (aggregate stats) ks None) =
     concat (map (\<lambda>k. case find (\<lambda>s. Method s = k) stats of
                        None \<Rightarrow> []
                      | Some s \<Rightarrow>
                          [Gauge (''api.'' @ method_name k @ ''.duration'') (Duration s),
                           Inc (''api.'' @ method_name k @ ''.total'') 1,
                           Inc (''api.'' @ method_name k @ ''.failed'') (Failed s)]) ks)"
proof -
  have "(case aggregate stats k of None \<Rightarrow> [] | Some v \<Rightarrow> emit_method k v) =
     (case find (\<lambda>s. Method s = k) stats of
        None \<Rightarrow> []
      | Some s \<Rightarrow>
          [Gauge (''api.'' @ method_name k @ ''.duration'') (Duration s),
           Inc (''api.'' @ method_name k @ ''.total'') 1,
           Inc (''api.'' @ method_name k @ ''.failed'') (Failed s)])" for k
    by (simp add: aggregate_eq emit_method_def split: option.splits)
  then show ?thesis
    by (simp add: recv_stat_present aggregate_eq tick_def)
qed

theorem C9_repeated_stat_leaves_map_unchanged_witness:
  "recv_stat (aggregate [first_stat]) second_stat = aggregate [first_stat] \<and>
   fst (tick (aggregate [first_stat, second_stat]) [''/pb.gubernator.V1/GetRateLimits''] None) =
     [Gauge ''api.GetRateLimits.duration'' 500, Inc ''api.GetRateLimits.total'' 1,
      Inc ''api.GetRateLimits.failed'' 0]"
proof -
  have m: "method_name ''/pb.gubernator.V1/GetRateLimits'' = ''GetRateLimits''"
    by (simp add: method_name_def LastIndex_def)
  have p: "aggregate [first_stat] (Method second_stat) = Some (first_stat\<lparr>Called := 1\<rparr>)"
    by (simp add: aggregate_def recv_stat_def first_stat_def second_stat_def)
  from C9_repeated_stat_leaves_map_unchanged [where methods = "aggregate [first_stat]" and stat = second_stat
      and item = "first_stat\<lparr>Called := 1\<rparr>" and stats = "[first_stat, second_stat]"
      and ks = "[''/pb.gubernator.V1/GetRateLimits'']"] p m
  show ?thesis by (simp add: first_stat_def second_stat_def)
qed

end
